theory Spec2Isabelle
  imports Complex_Main "HOL-Library.Word"
begin

section \<open>Frames and the calls that may raise\<close>

text \<open>
  A pixel is an (R, G, B) triple of unsigned bytes, as in the uint8 array that
  \<^verbatim>\<open>np.array(image)\<close> gives for a PIL image of mode RGB. An image has a size and a
  pixel at every coordinate \<open>(x, y)\<close> inside it; the array has shape
  \<open>(height, width, 3)\<close>.

  Python floats are modelled as exact rationals; the one float that is not a number and
  that the code can produce (0/0 in numpy arithmetic) is \<open>NaN\<close>.
\<close>

type_synonym pixel = "8 word \<times> 8 word \<times> 8 word"

record Image =
  im_width :: nat
  im_height :: nat
  im_pixel :: "nat \<Rightarrow> nat \<Rightarrow> pixel"

datatype 'a py = Raises | Returns 'a

datatype pyfloat = Fin rat | NaN

definition BLACK_PIXEL_WARNING_THRESHOLD :: rat where
  "BLACK_PIXEL_WARNING_THRESHOLD = 95"

definition MIN_CONSECUTIVE_DETECTIONS :: nat where
  "MIN_CONSECUTIVE_DETECTIONS = 2"

definition BLUE_LOWER :: pixel where
  "BLUE_LOWER = (0, 70, 75)"

definition BLUE_UPPER :: pixel where
  "BLUE_UPPER = (15, 155, 155)"

definition max_errors :: nat where
  "max_errors = 5"

text \<open>\<^verbatim>\<open>Image.new("RGB", (width, height), color)\<close>: PIL raises ValueError on a negative size.\<close>

definition Image_new :: "int \<Rightarrow> int \<Rightarrow> pixel \<Rightarrow> Image py" where
  "Image_new w h color =
     (if w < 0 \<or> h < 0 then Raises
      else Returns \<lparr>im_width = nat w, im_height = nat h, im_pixel = (\<lambda>_ _. color)\<rparr>)"

text \<open>\<^verbatim>\<open>np.array(image)\<close>: the rows of the image, top to bottom.\<close>

definition np_array :: "Image \<Rightarrow> pixel list list" where
  "np_array img =
     map (\<lambda>y. map (\<lambda>x. im_pixel img x y) [0..<im_width img]) [0..<im_height img]"

text \<open>Counting the entries of a per-pixel mask that are set.\<close>

definition count_nonzero :: "(pixel \<Rightarrow> bool) \<Rightarrow> pixel list list \<Rightarrow> nat" where
  "count_nonzero cond arr = length (filter cond (concat arr))"

section \<open>Screen capture (monitor.py)\<close>

text \<open>
  What \<^verbatim>\<open>sct.grab(monitor)\<close> (with the instance lookup before it and
  \<^verbatim>\<open>Image.frombytes\<close> after it) does on one call is an input of the model: it raises, or
  it delivers the decoded image, whose size is the screenshot's own \<^verbatim>\<open>screenshot.size\<close>.
\<close>

datatype grab_result = GrabRaises | Grabbed Image

definition take_screenshot :: "grab_result \<Rightarrow> int \<Rightarrow> int \<Rightarrow> int \<Rightarrow> int \<Rightarrow> Image py" where
  "take_screenshot grab x y width height =
     (case grab of
        Grabbed screenshot \<Rightarrow> Returns screenshot
      | GrabRaises \<Rightarrow> Image_new width height (0, 0, 0))"

section \<open>Image classification (monitor.py)\<close>

text \<open>
  \<^verbatim>\<open>np.all(img_array < 10, axis=2)\<close>, summed. The count is a numpy integer, so on an
  image without pixels the division gives NaN (and no exception), and \<^verbatim>\<open>nan <= 95\<close> is
  false.
\<close>

definition analyze_screenshot_quality :: "Image \<Rightarrow> bool \<times> pyfloat" where
  "analyze_screenshot_quality img =
     (let img_array = np_array img;
          black_pixels = count_nonzero (\<lambda>(r, g, b). r < 10 \<and> g < 10 \<and> b < 10) img_array;
          total_pixels = im_height img * im_width img
      in if total_pixels = 0 then (False, NaN)
         else
           let black_percentage = (of_nat black_pixels / of_nat total_pixels) * 100;
               is_valid = (black_percentage \<le> BLACK_PIXEL_WARNING_THRESHOLD)
           in (is_valid, Fin black_percentage))"

text \<open>
  The conversion \<^verbatim>\<open>cv2.cvtColor(img_array, cv2.COLOR_RGB2GRAY)\<close> belongs to OpenCV; it
  maps every pixel to one gray byte and is a parameter \<open>rgb2gray\<close> of the model. Here
  the counts are Python integers: on an image without pixels the division (or the
  conversion before it) raises, and the handler returns 0.0.
\<close>

definition detect_white_pixels :: "(pixel \<Rightarrow> 8 word) \<Rightarrow> Image \<Rightarrow> int \<Rightarrow> rat" where
  "detect_white_pixels rgb2gray img threshold =
     (let img_array = np_array img;
          white_pixels = count_nonzero (\<lambda>p. threshold \<le> uint (rgb2gray p)) img_array;
          total_pixels = im_height img * im_width img
      in if total_pixels = 0 then 0
         else (of_nat white_pixels / of_nat total_pixels) * 100)"

text \<open>\<^verbatim>\<open>cv2.inRange\<close>: every channel between its two bounds, both included.\<close>

definition inRange :: "pixel \<Rightarrow> pixel \<Rightarrow> pixel \<Rightarrow> bool" where
  "inRange lowerb upperb p =
     (case (lowerb, upperb, p) of
        ((l0, l1, l2), (u0, u1, u2), (c0, c1, c2)) \<Rightarrow>
          l0 \<le> c0 \<and> c0 \<le> u0 \<and> l1 \<le> c1 \<and> c1 \<le> u1 \<and> l2 \<le> c2 \<and> c2 \<le> u2)"

definition detect_blue_pixels :: "Image \<Rightarrow> rat" where
  "detect_blue_pixels img =
     (let img_array = np_array img;
          blue_pixels = count_nonzero (inRange BLUE_LOWER BLUE_UPPER) img_array;
          total_pixels = im_height img * im_width img
      in if total_pixels = 0 then 0
         else (of_nat blue_pixels / of_nat total_pixels) * 100)"

subsection \<open>The classifier in the words of the specification\<close>

text \<open>The pixels of a frame that satisfy a property, as a set of coordinates.\<close>

definition pixels_where :: "(pixel \<Rightarrow> bool) \<Rightarrow> Image \<Rightarrow> (nat \<times> nat) set" where
  "pixels_where P img = {(x, y). x < im_width img \<and> y < im_height img \<and> P (im_pixel img x y)}"

definition percentage_where :: "(pixel \<Rightarrow> bool) \<Rightarrow> Image \<Rightarrow> rat" where
  "percentage_where P img =
     of_nat (card (pixels_where P img)) / of_nat (im_width img * im_height img) * 100"

definition near_black :: "pixel \<Rightarrow> bool" where
  "near_black p = (case p of (r, g, b) \<Rightarrow> unat r < 10 \<and> unat g < 10 \<and> unat b < 10)"

definition in_rgb_band :: "pixel \<Rightarrow> bool" where
  "in_rgb_band p =
     (case p of (r, g, b) \<Rightarrow>
        unat r \<le> 15 \<and> 70 \<le> unat g \<and> unat g \<le> 155 \<and> 75 \<le> unat b \<and> unat b \<le> 155)"

text \<open>
  The hue-saturation-value reading of a pixel that the specification names, with the
  8-bit scaling of OpenCV (H in 0..179, S and V in 0..255), rounded to the nearest
  integer: V is the largest channel, S the chroma relative to V, H the hue angle
  halved.
\<close>

definition rdiv :: "int \<Rightarrow> int \<Rightarrow> int" where
  "rdiv a b = (2 * a + b) div (2 * b)"

definition rgb2hsv :: "pixel \<Rightarrow> int \<times> int \<times> int" where
  "rgb2hsv p =
     (case p of (r8, g8, b8) \<Rightarrow>
        let r = uint r8; g = uint g8; b = uint b8;
            v = max r (max g b);
            d = v - min r (min g b);
            s = (if v = 0 then 0 else rdiv (255 * d) v);
            h = (if d = 0 then 0
                 else if v = r then rdiv (30 * (g - b)) d
                 else if v = g then 60 + rdiv (30 * (b - r)) d
                 else 120 + rdiv (30 * (r - g)) d)
        in (h mod 180, s, v))"

definition in_hsv_band :: "pixel \<Rightarrow> bool" where
  "in_hsv_band p =
     (case rgb2hsv p of (h, s, v) \<Rightarrow>
        0 \<le> h \<and> h \<le> 15 \<and> 70 \<le> s \<and> s \<le> 155 \<and> 75 \<le> v \<and> v \<le> 155)"

definition blue_ratio_spec :: "Image \<Rightarrow> rat" where
  "blue_ratio_spec img = percentage_where in_hsv_band img"

text \<open>
  One gray conversion to run the classifier with: the luma
  \<open>0.299 R + 0.587 G + 0.114 B\<close> in 14-bit fixed point.
\<close>

definition luma_gray :: "pixel \<Rightarrow> 8 word" where
  "luma_gray p =
     (case p of (r, g, b) \<Rightarrow>
        word_of_nat ((4899 * unat r + 9617 * unat g + 1868 * unat b + 8192) div 16384))"

text \<open>Frames of one colour.\<close>

definition uniform :: "nat \<Rightarrow> nat \<Rightarrow> pixel \<Rightarrow> Image" where
  "uniform w h c = \<lparr>im_width = w, im_height = h, im_pixel = (\<lambda>_ _. c)\<rparr>"

section \<open>The application state (config.py, gui.py)\<close>

record MonitorConfig =
  cfg_x :: int
  cfg_y :: int
  cfg_width :: int
  cfg_height :: int
  white_threshold :: int
  blue_threshold :: rat
  check_interval :: rat

text \<open>
  The texts that \<^verbatim>\<open>status_var\<close> is set to, with the numbers they are formatted from
  (the rolling average of the loop time, a reading of the clock, is left out), and the
  message boxes the operator is shown.
\<close>

datatype status_msg =
    ReadyToStart
  | MonitoringStarted
  | MonitoringStopped
  | TooManyScreenshotErrors
  | ScreenshotFailed nat
  | WarningBlack pyfloat
  | PokemonDetected rat rat nat
  | Monitoring rat rat string
  | MonitoringError nat
  | TooManyErrors
  | UpdatedArea

datatype dialog =
    InvalidInput
  | InvalidConfiguration string
  | UpdateFailed

text \<open>What the worker does to the outside, in the order it does it.\<close>

datatype effect = Alert | Sleep rat

text \<open>
  The fields of \<^verbatim>\<open>PokemonRadarGUI\<close> that the monitoring code reads and writes. The
  entry fields hold text; \<open>None\<close> stands for a text that \<^verbatim>\<open>int()\<close> or
  \<^verbatim>\<open>float()\<close> rejects with ValueError (the floats that are not finite have no
  counterpart here). \<open>monitor_thread\<close> tells whether a thread
  object has been stored. \<open>error_count\<close> is the local variable of
  \<^verbatim>\<open>monitor_screen\<close>; \<open>effects\<close> and \<open>dialogs\<close> record what was done.
\<close>

record PokemonRadarGUI =
  monitoring :: bool
  monitor_thread :: bool
  consecutive_detections :: nat
  config :: MonitorConfig
  x_var :: "int option"
  y_var :: "int option"
  width_var :: "int option"
  height_var :: "int option"
  threshold_var :: "int option"
  blue_threshold_var :: "rat option"
  interval_var :: "rat option"
  status_var :: status_msg
  error_count :: nat
  effects :: "effect list"
  dialogs :: "dialog list"

text \<open>How a statement ends: it falls through, or leaves by continue, return or an exception.\<close>

datatype flow = Next | Continue | Return | Raise

definition then_do ::
  "PokemonRadarGUI \<times> flow \<Rightarrow> (PokemonRadarGUI \<Rightarrow> PokemonRadarGUI \<times> flow) \<Rightarrow> PokemonRadarGUI \<times> flow"
where
  "then_do r f = (case r of (st, Next) \<Rightarrow> f st | _ \<Rightarrow> r)"

definition set_status :: "status_msg \<Rightarrow> PokemonRadarGUI \<Rightarrow> PokemonRadarGUI" where
  "set_status msg st = st\<lparr>status_var := msg\<rparr>"

text \<open>\<^verbatim>\<open>time.sleep\<close> raises ValueError on a negative length.\<close>

definition time_sleep :: "rat \<Rightarrow> PokemonRadarGUI \<Rightarrow> PokemonRadarGUI \<times> flow" where
  "time_sleep secs st =
     (if secs < 0 then (st, Raise) else (st\<lparr>effects := effects st @ [Sleep secs]\<rparr>, Next))"

text \<open>\<^verbatim>\<open>play_alert_sound\<close> (audio.py) handles its own failures and falls back to the bell.\<close>

definition play_alert_sound :: "PokemonRadarGUI \<Rightarrow> PokemonRadarGUI" where
  "play_alert_sound st = st\<lparr>effects := effects st @ [Alert]\<rparr>"

text \<open>
  \<^verbatim>\<open>stop_monitoring\<close> as the worker calls it. When a thread object is stored it is the
  worker's own, and \<^verbatim>\<open>join\<close> on the current thread raises RuntimeError, after the
  flag has been cleared and before the status is set.
\<close>

definition stop_monitoring :: "PokemonRadarGUI \<Rightarrow> PokemonRadarGUI \<times> flow" where
  "stop_monitoring st =
     (let st = st\<lparr>monitoring := False\<rparr>
      in if monitor_thread st then (st, Raise)
         else (set_status MonitoringStopped st, Next))"

section \<open>The monitoring loop (gui.py)\<close>

text \<open>
  What the call of \<^verbatim>\<open>take_screenshot\<close> does in one cycle is the input of the cycle:
  it raises, returns the sentinel \<open>None\<close>, or returns a frame. The body of the
  \<^verbatim>\<open>try\<close> comes first, then the handler around it. The update of the preview,
  which handles its own failures, and the bookkeeping of the loop times are left out;
  the configuration is the one the session holds, read in every cycle, and the flag is
  changed by the worker only (a stop by the operator ends the run of cycles).
\<close>

definition monitor_try ::
  "(pixel \<Rightarrow> 8 word) \<Rightarrow> Image option py \<Rightarrow> PokemonRadarGUI \<Rightarrow> PokemonRadarGUI \<times> flow"
where
  "monitor_try rgb2gray capture st =
     (case capture of
        Raises \<Rightarrow> (st, Raise)
      | Returns None \<Rightarrow>
          (let st = st\<lparr>error_count := error_count st + 1\<rparr>
           in if error_count st \<ge> max_errors then
                then_do (stop_monitoring (set_status TooManyScreenshotErrors st))
                  (\<lambda>st. (st, Return))
              else
                then_do
                  (time_sleep (check_interval (config st))
                     (set_status (ScreenshotFailed (error_count st)) st))
                  (\<lambda>st. (st, Continue)))
      | Returns (Some screenshot) \<Rightarrow>
          (let st = st\<lparr>error_count := 0\<rparr>;
               (is_valid, black_percentage) = analyze_screenshot_quality screenshot
           in if \<not> is_valid then
                then_do
                  (time_sleep (check_interval (config st))
                     (set_status (WarningBlack black_percentage) st))
                  (\<lambda>st. (st, Continue))
              else
                let white_percentage =
                      detect_white_pixels rgb2gray screenshot (white_threshold (config st));
                    blue_percentage = detect_blue_pixels screenshot;
                    white_detected = (white_percentage > 1 / 10);
                    blue_detected = (blue_percentage \<ge> blue_threshold (config st))
                in then_do
                     (if white_detected \<and> blue_detected then
                        let st = st\<lparr>consecutive_detections := consecutive_detections st + 1\<rparr>;
                            st = set_status
                                   (PokemonDetected white_percentage blue_percentage
                                      (consecutive_detections st)) st
                        in if consecutive_detections st \<ge> MIN_CONSECUTIVE_DETECTIONS then
                             time_sleep 2 (play_alert_sound st)
                           else (st, Next)
                      else
                        let st = st\<lparr>consecutive_detections := 0\<rparr>;
                            hint = (if white_detected \<and> \<not> blue_detected then
                                      '' (White detected but insufficient blue)''
                                    else if blue_detected \<and> \<not> white_detected then
                                      '' (Blue detected but no white)''
                                    else '''')
                        in (set_status (Monitoring white_percentage blue_percentage hint) st,
                            Next))
                     (time_sleep (check_interval (config st)))))"

text \<open>The \<^verbatim>\<open>except Exception\<close> block, entered from the state the exception left.\<close>

definition except_handler :: "PokemonRadarGUI \<Rightarrow> PokemonRadarGUI \<times> flow" where
  "except_handler st =
     (let st = st\<lparr>error_count := error_count st + 1\<rparr>;
          st = set_status (MonitoringError (error_count st)) st
      in if error_count st \<ge> max_errors then
           then_do (stop_monitoring (set_status TooManyErrors st)) (\<lambda>st. (st, Return))
         else time_sleep 1 st)"

definition monitor_cycle ::
  "(pixel \<Rightarrow> 8 word) \<Rightarrow> Image option py \<Rightarrow> PokemonRadarGUI \<Rightarrow> PokemonRadarGUI \<times> flow"
where
  "monitor_cycle rgb2gray capture st =
     (case monitor_try rgb2gray capture st of
        (st, Raise) \<Rightarrow> except_handler st
      | r \<Rightarrow> r)"

text \<open>
  The \<^verbatim>\<open>while self.monitoring\<close> loop over the captures of the cycles to come. The
  result says how the run stands: \<open>Next\<close> when the captures are used up with the loop
  still going, \<open>Return\<close> when the function has returned, \<open>Raise\<close> when an exception has
  left it.
\<close>

fun monitor_loop ::
  "(pixel \<Rightarrow> 8 word) \<Rightarrow> Image option py list \<Rightarrow> PokemonRadarGUI \<Rightarrow> PokemonRadarGUI \<times> flow"
where
  "monitor_loop rgb2gray [] st = (st, if monitoring st then Next else Return)"
| "monitor_loop rgb2gray (capture # captures) st =
     (if monitoring st then
        (case monitor_cycle rgb2gray capture st of
           (st, Return) \<Rightarrow> (st, Return)
         | (st, Raise) \<Rightarrow> (st, Raise)
         | (st, _) \<Rightarrow> monitor_loop rgb2gray captures st)
      else (st, Return))"

definition monitor_screen ::
  "(pixel \<Rightarrow> 8 word) \<Rightarrow> Image option py list \<Rightarrow> PokemonRadarGUI \<Rightarrow> PokemonRadarGUI \<times> flow"
where
  "monitor_screen rgb2gray captures st =
     monitor_loop rgb2gray captures (st\<lparr>consecutive_detections := 0, error_count := 0\<rparr>)"


text \<open>The number of times the alert was sounded.\<close>

definition alerts :: "PokemonRadarGUI \<Rightarrow> nat" where
  "alerts st = length (filter (\<lambda>e. e = Alert) (effects st))"

text \<open>A cycle in which a frame arrives, passes the quality check and shows both colours.\<close>

definition both_detected :: "(pixel \<Rightarrow> 8 word) \<Rightarrow> MonitorConfig \<Rightarrow> Image option py \<Rightarrow> bool" where
  "both_detected rgb2gray cfg capture =
     (case capture of
        Returns (Some screenshot) \<Rightarrow>
          fst (analyze_screenshot_quality screenshot)
          \<and> detect_white_pixels rgb2gray screenshot (white_threshold cfg) > 1 / 10
          \<and> detect_blue_pixels screenshot \<ge> blue_threshold cfg
      | _ \<Rightarrow> False)"

text \<open>A cycle whose capture fails: the call raises or returns the sentinel.\<close>

definition capture_failed :: "Image option py \<Rightarrow> bool" where
  "capture_failed capture = (capture = Raises \<or> capture = Returns None)"

text \<open>A cycle whose capture delivers a frame.\<close>

definition frame_arrives :: "Image option py \<Rightarrow> bool" where
  "frame_arrives capture = (case capture of Returns (Some _) \<Rightarrow> True | _ \<Rightarrow> False)"

section \<open>Starting a session (gui.py)\<close>

definition validate_inputs :: "PokemonRadarGUI \<Rightarrow> bool \<times> PokemonRadarGUI" where
  "validate_inputs st =
     (case (x_var st, y_var st, width_var st, height_var st, threshold_var st,
            blue_threshold_var st, interval_var st) of
        (Some x, Some y, Some width, Some height, Some threshold, Some blue, Some interval) \<Rightarrow>
          if width \<le> 0 \<or> height \<le> 0 then (False, st\<lparr>dialogs := dialogs st @ [InvalidInput]\<rparr>)
          else if \<not> (0 \<le> threshold \<and> threshold \<le> 255) then
            (False, st\<lparr>dialogs := dialogs st @ [InvalidInput]\<rparr>)
          else if \<not> (0 \<le> blue \<and> blue \<le> 100) then
            (False, st\<lparr>dialogs := dialogs st @ [InvalidInput]\<rparr>)
          else if interval \<le> 0 then (False, st\<lparr>dialogs := dialogs st @ [InvalidInput]\<rparr>)
          else (True, st)
      | _ \<Rightarrow> (False, st\<lparr>dialogs := dialogs st @ [InvalidInput]\<rparr>))"

text \<open>
  The surroundings of a start: the size \<^verbatim>\<open>get_screen_size\<close> reports, what the grab of
  the test screenshot does, and whether the configuration file can be written.
\<close>

record surroundings =
  screen_size :: "int \<times> int"
  probe :: grab_result
  save_ok :: bool

definition validate_configuration :: "surroundings \<Rightarrow> PokemonRadarGUI \<Rightarrow> bool \<times> string" where
  "validate_configuration env st =
     (case screen_size env of (screen_width, screen_height) \<Rightarrow>
        if cfg_x (config st) < - screen_width * 2 \<or> cfg_x (config st) > screen_width * 3
           \<or> cfg_y (config st) < - screen_height \<or> cfg_y (config st) > screen_height * 2
        then (False, ''Coordinates appear to be out of bounds for your monitor setup'')
        else
          (case take_screenshot (probe env) (cfg_x (config st)) (cfg_y (config st))
                  (min (cfg_width (config st)) 100) (min (cfg_height (config st)) 100) of
             Raises \<Rightarrow> (False, ''Configuration validation failed'')
           | Returns test_screenshot \<Rightarrow>
               (case analyze_screenshot_quality test_screenshot of (is_valid, black_percentage) \<Rightarrow>
                  if \<not> is_valid then (False, ''Screenshot area is mostly black - likely invalid coordinates'')
                  else (True, ''Configuration is valid''))))"

definition update_monitor_area :: "surroundings \<Rightarrow> PokemonRadarGUI \<Rightarrow> PokemonRadarGUI" where
  "update_monitor_area env st =
     (case validate_inputs st of
        (False, st) \<Rightarrow> st
      | (True, st) \<Rightarrow>
          (let st = st\<lparr>config :=
                      \<lparr>cfg_x = the (x_var st), cfg_y = the (y_var st),
                       cfg_width = the (width_var st), cfg_height = the (height_var st),
                       white_threshold = the (threshold_var st),
                       blue_threshold = the (blue_threshold_var st),
                       check_interval = the (interval_var st)\<rparr>\<rparr>
           in if save_ok env then set_status UpdatedArea st
              else st\<lparr>dialogs := dialogs st @ [UpdateFailed]\<rparr>))"

text \<open>
  \<^verbatim>\<open>start_monitoring\<close>: the thread it starts runs \<^verbatim>\<open>monitor_screen\<close> from the state
  it leaves.
\<close>

definition start_monitoring :: "surroundings \<Rightarrow> PokemonRadarGUI \<Rightarrow> PokemonRadarGUI" where
  "start_monitoring env st =
     (if \<not> monitoring st then
        (case validate_configuration env st of
           (False, message) \<Rightarrow> st\<lparr>dialogs := dialogs st @ [InvalidConfiguration message]\<rparr>
         | (True, message) \<Rightarrow>
             (let st = update_monitor_area env st;
                  st = st\<lparr>monitoring := True\<rparr>;
                  st = st\<lparr>monitor_thread := True\<rparr>
              in set_status MonitoringStarted st))
      else st)"

text \<open>The static validation of the specification, on a configuration.\<close>

definition valid_settings :: "MonitorConfig \<Rightarrow> bool" where
  "valid_settings cfg =
     (0 < cfg_width cfg \<and> 0 < cfg_height cfg
      \<and> 0 \<le> white_threshold cfg \<and> white_threshold cfg \<le> 255
      \<and> 0 \<le> blue_threshold cfg \<and> blue_threshold cfg \<le> 100
      \<and> 0 < check_interval cfg)"

section \<open>Sessions and frames to run the loop on\<close>

text \<open>The defaults of \<^verbatim>\<open>MonitorConfig\<close>.\<close>

definition default_config :: MonitorConfig where
  "default_config =
     \<lparr>cfg_x = 1535, cfg_y = 730, cfg_width = 275, cfg_height = 275,
      white_threshold = 200, blue_threshold = 60, check_interval = 1 / 2\<rparr>"

text \<open>The application after \<^verbatim>\<open>__init__\<close> with a configuration: idle, the entry fields showing it.\<close>

definition new_app :: "MonitorConfig \<Rightarrow> PokemonRadarGUI" where
  "new_app cfg =
     \<lparr>monitoring = False, monitor_thread = False, consecutive_detections = 0, config = cfg,
      x_var = Some (cfg_x cfg), y_var = Some (cfg_y cfg),
      width_var = Some (cfg_width cfg), height_var = Some (cfg_height cfg),
      threshold_var = Some (white_threshold cfg),
      blue_threshold_var = Some (blue_threshold cfg),
      interval_var = Some (check_interval cfg),
      status_var = ReadyToStart, error_count = 0, effects = [], dialogs = []\<rparr>"

text \<open>The state in which the worker thread of a session begins.\<close>

definition running_app :: "MonitorConfig \<Rightarrow> PokemonRadarGUI" where
  "running_app cfg =
     (new_app cfg)\<lparr>monitoring := True, monitor_thread := True, status_var := MonitoringStarted\<rparr>"

text \<open>A frame with one white pixel and three pixels of the target colour; a dark frame; a gray one.\<close>

definition hit_frame :: Image where
  "hit_frame =
     \<lparr>im_width = 4, im_height = 1,
      im_pixel = (\<lambda>x y. if x = 0 then (255, 255, 255) else (10, 100, 150))\<rparr>"

definition dark_frame :: Image where
  "dark_frame = uniform 4 1 (0, 0, 0)"

definition gray_frame :: Image where
  "gray_frame = uniform 4 1 (128, 128, 128)"

section \<open>Counting pixels\<close>

lemma upt_filter_card: "length (filter Q [0..<w]) = card {x. x < w \<and> Q x}"
proof -
  have "{i. i < length [0..<w] \<and> Q ([0..<w] ! i)} = {x. x < w \<and> Q x}"
    by auto
  then show ?thesis
    by (simp add: length_filter_conv_card)
qed

lemma count_nonzero_card: "count_nonzero P (np_array img) = card (pixels_where P img)"
proof -
  let ?w = "im_width img" and ?h = "im_height img"
  let ?row = "\<lambda>y. {x. x < ?w \<and> P (im_pixel img x y)}"
  have "count_nonzero P (np_array img) = (\<Sum>y\<leftarrow>[0..<?h]. card (?row y))"
    by (simp add: count_nonzero_def np_array_def length_concat filter_concat comp_def
        upt_filter_card map_concat)
  also have "\<dots> = (\<Sum>y\<in>{..<?h}. card (?row y))"
    by (simp add: sum_list_distinct_conv_sum_set atLeast0LessThan)
  also have "\<dots> = card (SIGMA y:{..<?h}. ?row y)"
    by (subst card_SigmaI) auto
  also have "\<dots> = card (prod.swap ` (SIGMA y:{..<?h}. ?row y))"
    by (simp add: card_image)
  also have "prod.swap ` (SIGMA y:{..<?h}. ?row y) = pixels_where P img"
    by (auto simp: image_iff pixels_where_def)
  finally show ?thesis .
qed

lemma pixels_where_finite: "finite (pixels_where P img)"
proof -
  have "pixels_where P img \<subseteq> {..<im_width img} \<times> {..<im_height img}"
    by (auto simp: pixels_where_def)
  then show ?thesis
    by (rule finite_subset) simp
qed

lemma pixels_where_all:
  assumes "\<forall>x<im_width img. \<forall>y<im_height img. P (im_pixel img x y)"
  shows "card (pixels_where P img) = im_width img * im_height img"
proof -
  have "pixels_where P img = {..<im_width img} \<times> {..<im_height img}"
    using assms by (auto simp: pixels_where_def)
  then show ?thesis
    by simp
qed

lemma pixels_where_none:
  assumes "\<forall>x<im_width img. \<forall>y<im_height img. \<not> P (im_pixel img x y)"
  shows "card (pixels_where P img) = 0"
proof -
  have "pixels_where P img = {}"
    using assms by (auto simp: pixels_where_def)
  then show ?thesis
    by simp
qed

lemma pixels_where_mono:
  assumes "\<And>p. P p \<Longrightarrow> Q p"
  shows "card (pixels_where P img) \<le> card (pixels_where Q img)"
proof (rule card_mono)
  show "finite (pixels_where Q img)"
    by (rule pixels_where_finite)
  show "pixels_where P img \<subseteq> pixels_where Q img"
    by (auto simp: pixels_where_def intro: assms)
qed

lemma near_black_mask: "(\<lambda>(r, g, b). r < 10 \<and> g < 10 \<and> b < 10) = near_black"
  by (auto simp: near_black_def fun_eq_iff word_less_nat_alt)

lemma in_rgb_band_mask: "inRange BLUE_LOWER BLUE_UPPER = in_rgb_band"
  by (auto simp: inRange_def BLUE_LOWER_def BLUE_UPPER_def in_rgb_band_def fun_eq_iff
      word_le_nat_alt)

lemma quality_eq:
  "analyze_screenshot_quality img =
     (if im_width img = 0 \<or> im_height img = 0 then (False, NaN)
      else (percentage_where near_black img \<le> 95, Fin (percentage_where near_black img)))"
  unfolding analyze_screenshot_quality_def Let_def near_black_mask count_nonzero_card
  by (simp add: percentage_where_def BLACK_PIXEL_WARNING_THRESHOLD_def mult.commute)

lemma white_eq:
  "detect_white_pixels rgb2gray img t =
     (if im_width img = 0 \<or> im_height img = 0 then 0
      else percentage_where (\<lambda>p. t \<le> uint (rgb2gray p)) img)"
  unfolding detect_white_pixels_def Let_def count_nonzero_card
  by (simp add: percentage_where_def mult.commute)

lemma blue_eq:
  "detect_blue_pixels img =
     (if im_width img = 0 \<or> im_height img = 0 then 0
      else percentage_where in_rgb_band img)"
  unfolding detect_blue_pixels_def Let_def in_rgb_band_mask count_nonzero_card
  by (simp add: percentage_where_def mult.commute)

lemma percentage_all:
  assumes "0 < im_width img" "0 < im_height img"
    and "\<forall>x<im_width img. \<forall>y<im_height img. P (im_pixel img x y)"
  shows "percentage_where P img = 100"
  using assms by (simp add: percentage_where_def pixels_where_all)

lemma percentage_none:
  assumes "\<forall>x<im_width img. \<forall>y<im_height img. \<not> P (im_pixel img x y)"
  shows "percentage_where P img = 0"
  using assms by (simp add: percentage_where_def pixels_where_none)

lemma percentage_mono:
  assumes "\<And>p. P p \<Longrightarrow> Q p"
  shows "percentage_where P img \<le> percentage_where Q img"
proof -
  have "(of_nat (card (pixels_where P img)) :: rat) \<le> of_nat (card (pixels_where Q img))"
    using pixels_where_mono [of P Q img] assms by simp
  then show ?thesis
    by (simp add: percentage_where_def divide_right_mono)
qed

section \<open>The classifier\<close>

text \<open>
  C7. On a frame with pixels, the quality check counts the pixels all of whose channels
  are below 10, reports their share of the frame in percent, and calls the frame valid
  exactly when that share is at most 95. So a frame of near-black pixels only gives 100
  and invalid, and a frame without any near-black pixel (an all-white one) gives 0 and
  valid.
\<close>

theorem quality_black_percentage:
  assumes "0 < im_width img" and "0 < im_height img"
  shows "analyze_screenshot_quality img =
           (percentage_where near_black img \<le> 95, Fin (percentage_where near_black img))
         \<and> ((\<forall>x<im_width img. \<forall>y<im_height img. near_black (im_pixel img x y))
              \<longrightarrow> analyze_screenshot_quality img = (False, Fin 100))
         \<and> ((\<forall>x<im_width img. \<forall>y<im_height img. \<not> near_black (im_pixel img x y))
              \<longrightarrow> analyze_screenshot_quality img = (True, Fin 0))"
  using assms by (simp add: quality_eq percentage_all percentage_none)

theorem quality_black_percentage_witness:
  "analyze_screenshot_quality (uniform 2 3 (0, 0, 0)) = (False, Fin 100)
   \<and> analyze_screenshot_quality (uniform 2 3 (255, 255, 255)) = (True, Fin 0)"
  using quality_black_percentage [THEN conjunct2, THEN conjunct1, of "uniform 2 3 (0, 0, 0)"]
    quality_black_percentage [THEN conjunct2, THEN conjunct2, of "uniform 2 3 (255, 255, 255)"]
  by (simp add: uniform_def near_black_def)

text \<open>
  C9. For a fixed frame and a fixed gray conversion, raising the threshold never raises
  the white percentage.
\<close>

theorem white_ratio_antimono:
  assumes "t1 \<le> t2"
  shows "detect_white_pixels rgb2gray img t2 \<le> detect_white_pixels rgb2gray img t1"
proof -
  have "percentage_where (\<lambda>p. t2 \<le> uint (rgb2gray p)) img
        \<le> percentage_where (\<lambda>p. t1 \<le> uint (rgb2gray p)) img"
    using assms by (intro percentage_mono) simp
  then show ?thesis
    by (simp add: white_eq)
qed

theorem white_ratio_antimono_witness:
  "(200 :: int) \<le> 250
   \<and> detect_white_pixels luma_gray (uniform 2 2 (230, 230, 230)) 250
       \<le> detect_white_pixels luma_gray (uniform 2 2 (230, 230, 230)) 200"
  using white_ratio_antimono [of 200 250 luma_gray "uniform 2 2 (230, 230, 230)"]
  by simp

text \<open>
  C1, as the code has it. The frame is not converted: the band is applied to the stored
  (R, G, B) channels. On a frame with pixels, the result is the percentage of pixels with
  R in [0,15], G in [70,155] and B in [75,155]; it is 0 when no pixel lies in that band
  and 100 when all do.
\<close>

theorem blue_ratio_rgb_band:
  assumes "0 < im_width img" and "0 < im_height img"
  shows "detect_blue_pixels img = percentage_where in_rgb_band img
         \<and> ((\<forall>x<im_width img. \<forall>y<im_height img. \<not> in_rgb_band (im_pixel img x y))
              \<longrightarrow> detect_blue_pixels img = 0)
         \<and> ((\<forall>x<im_width img. \<forall>y<im_height img. in_rgb_band (im_pixel img x y))
              \<longrightarrow> detect_blue_pixels img = 100)"
  using assms by (simp add: blue_eq percentage_all percentage_none)

theorem blue_ratio_rgb_band_witness:
  "detect_blue_pixels (uniform 2 2 (255, 255, 255)) = 0
   \<and> detect_blue_pixels (uniform 2 2 (10, 100, 150)) = 100"
  using blue_ratio_rgb_band [THEN conjunct2, THEN conjunct1, of "uniform 2 2 (255, 255, 255)"]
    blue_ratio_rgb_band [THEN conjunct2, THEN conjunct2, of "uniform 2 2 (10, 100, 150)"]
  by (simp add: uniform_def in_rgb_band_def)

text \<open>
  C1, as the specification words it, fails. The pixel (10, 100, 150) has hue 101 and
  saturation 238, outside the band, and the code counts it; the pixel (100, 80, 70) has
  hue 10, saturation 77 and value 100, inside the band, and the code does not count it.
\<close>

theorem blue_ratio_hsv_counterexample:
  "detect_blue_pixels (uniform 1 1 (10, 100, 150)) = 100
   \<and> blue_ratio_spec (uniform 1 1 (10, 100, 150)) = 0
   \<and> detect_blue_pixels (uniform 1 1 (100, 80, 70)) = 0
   \<and> blue_ratio_spec (uniform 1 1 (100, 80, 70)) = 100"
proof -
  have a: "in_rgb_band (10, 100, 150)" "\<not> in_rgb_band (100, 80, 70)"
    by (simp_all add: in_rgb_band_def)
  have b: "\<not> in_hsv_band (10, 100, 150)" "in_hsv_band (100, 80, 70)"
    by (simp_all add: in_hsv_band_def rgb2hsv_def rdiv_def Let_def)
  show ?thesis
    using a b
    by (simp add: blue_eq blue_ratio_spec_def percentage_all percentage_none uniform_def)
qed

section \<open>Screen capture\<close>

text \<open>
  C8, as the code has it. For a region of positive width and height,
  \<^verbatim>\<open>take_screenshot\<close> does not raise. When the grab fails, it returns a frame of
  exactly the requested width and height, every pixel of which is black. When the grab
  succeeds, it returns the screenshot as the grab delivered it, at the size the grab
  reports.
\<close>

theorem take_screenshot_dimensions:
  assumes "0 < width" and "0 < height"
  shows "take_screenshot grab x y width height \<noteq> Raises
         \<and> (grab = GrabRaises \<longrightarrow>
              (\<exists>frame. take_screenshot grab x y width height = Returns frame
                 \<and> int (im_width frame) = width \<and> int (im_height frame) = height
                 \<and> (\<forall>px py. im_pixel frame px py = (0, 0, 0))))
         \<and> (\<forall>shot. grab = Grabbed shot \<longrightarrow>
              take_screenshot grab x y width height = Returns shot)"
  using assms by (cases grab) (auto simp: take_screenshot_def Image_new_def)

theorem take_screenshot_dimensions_witness:
  "(\<exists>frame. take_screenshot GrabRaises 1535 730 275 275 = Returns frame
      \<and> int (im_width frame) = 275 \<and> int (im_height frame) = 275
      \<and> (\<forall>px py. im_pixel frame px py = (0, 0, 0)))
   \<and> take_screenshot (Grabbed (uniform 4 3 (9, 9, 9))) 0 0 4 3
       = Returns (uniform 4 3 (9, 9, 9))"
  using take_screenshot_dimensions [of 275 275 GrabRaises 1535 730]
    take_screenshot_dimensions [of 4 3 "Grabbed (uniform 4 3 (9, 9, 9))" 0 0]
  by simp

text \<open>
  C8, as the specification words it, fails: a grab that delivers a screenshot of 8 by 6
  for a request of 4 by 3 is passed on as it is.
\<close>

theorem take_screenshot_size_counterexample:
  "take_screenshot (Grabbed (uniform 8 6 (9, 9, 9))) 0 0 4 3 = Returns (uniform 8 6 (9, 9, 9))
   \<and> int (im_width (uniform 8 6 (9, 9, 9))) \<noteq> 4
   \<and> int (im_height (uniform 8 6 (9, 9, 9))) \<noteq> 3"
  by (simp add: take_screenshot_def uniform_def)

section \<open>One cycle of the loop\<close>


lemma then_do_simps:
  "then_do (s, Next) f = f s"
  "then_do (s, Continue) f = (s, Continue)"
  "then_do (s, Return) f = (s, Return)"
  "then_do (s, Raise) f = (s, Raise)"
  by (simp_all add: then_do_def)

lemmas prim_defs = then_do_simps time_sleep_def set_status_def stop_monitoring_def
  play_alert_sound_def Let_def case_prod_beta

lemma try_raises: "monitor_try g Raises st = (st, Raise)"
  by (simp add: monitor_try_def)

lemma try_none:
  "monitor_try g (Returns None) st =
     (if max_errors \<le> error_count st + 1 then
        then_do (stop_monitoring (set_status TooManyScreenshotErrors (st\<lparr>error_count := error_count st + 1\<rparr>)))
          (\<lambda>st. (st, Return))
      else
        then_do (time_sleep (check_interval (config st))
                   (set_status (ScreenshotFailed (error_count st + 1)) (st\<lparr>error_count := error_count st + 1\<rparr>)))
          (\<lambda>st. (st, Continue)))"
  by (simp add: monitor_try_def Let_def)

lemma try_invalid:
  assumes "\<not> fst (analyze_screenshot_quality img)"
  shows "monitor_try g (Returns (Some img)) st =
     then_do (time_sleep (check_interval (config st))
                (set_status (WarningBlack (snd (analyze_screenshot_quality img))) (st\<lparr>error_count := 0\<rparr>)))
       (\<lambda>st. (st, Continue))"
  using assms by (simp add: monitor_try_def Let_def case_prod_beta)

lemma try_hit:
  assumes "both_detected g (config st) (Returns (Some img))"
  shows "monitor_try g (Returns (Some img)) st =
     then_do
       (if MIN_CONSECUTIVE_DETECTIONS \<le> consecutive_detections st + 1 then
          time_sleep 2 (play_alert_sound
            (set_status (PokemonDetected (detect_white_pixels g img (white_threshold (config st)))
                 (detect_blue_pixels img) (consecutive_detections st + 1))
               (st\<lparr>error_count := 0, consecutive_detections := consecutive_detections st + 1\<rparr>)))
        else
          (set_status (PokemonDetected (detect_white_pixels g img (white_threshold (config st)))
                 (detect_blue_pixels img) (consecutive_detections st + 1))
               (st\<lparr>error_count := 0, consecutive_detections := consecutive_detections st + 1\<rparr>), Next))
       (time_sleep (check_interval (config st)))"
  using assms by (simp add: monitor_try_def both_detected_def Let_def case_prod_beta set_status_def)

lemma try_miss:
  assumes "fst (analyze_screenshot_quality img)"
    and "\<not> both_detected g (config st) (Returns (Some img))"
  shows "\<exists>hint. monitor_try g (Returns (Some img)) st =
     time_sleep (check_interval (config st))
       (set_status (Monitoring (detect_white_pixels g img (white_threshold (config st)))
                 (detect_blue_pixels img) hint)
          (st\<lparr>error_count := 0, consecutive_detections := 0\<rparr>))"
  using assms by (auto simp: monitor_try_def both_detected_def Let_def case_prod_beta set_status_def then_do_simps)

lemma cycle_cases [case_names raises none invalid hit miss]:
  obtains "c = Raises"
  | "c = Returns None"
  | img where "c = Returns (Some img)" and "\<not> fst (analyze_screenshot_quality img)"
  | img where "c = Returns (Some img)" and "both_detected g cfg c"
  | img where "c = Returns (Some img)" and "fst (analyze_screenshot_quality img)"
      and "\<not> both_detected g cfg c"
proof (cases c)
  case Raises
  then show ?thesis using that by blast
next
  case (Returns r)
  then show ?thesis
    using that by (cases r) auto
qed

lemmas cycle_unfold = monitor_cycle_def try_raises try_none try_invalid try_hit
  except_handler_def prim_defs max_errors_def MIN_CONSECUTIVE_DETECTIONS_def

lemma cycle_config: "config (fst (monitor_cycle g c st)) = config st"
proof (cases rule: cycle_cases [where c = c and g = g and cfg = "config st"])
  case (miss img)
  then obtain hint where "monitor_try g c st =
     time_sleep (check_interval (config st))
       (set_status (Monitoring (detect_white_pixels g img (white_threshold (config st)))
                 (detect_blue_pixels img) hint)
          (st\<lparr>error_count := 0, consecutive_detections := 0\<rparr>))"
    using try_miss [of img g st] by auto
  then show ?thesis
    by (simp add: cycle_unfold)
qed (simp_all add: cycle_unfold)

lemma try_miss_obtain:
  assumes "fst (analyze_screenshot_quality img)"
    and "\<not> both_detected g (config st) (Returns (Some img))"
  obtains hint where "monitor_try g (Returns (Some img)) st =
     time_sleep (check_interval (config st))
       (st\<lparr>error_count := 0, consecutive_detections := 0,
           status_var := Monitoring (detect_white_pixels g img (white_threshold (config st)))
                 (detect_blue_pixels img) hint\<rparr>)"
  using try_miss [OF assms] by (auto simp: set_status_def)

lemma hit_is_frame:
  assumes "both_detected g cfg c"
  obtains img where "c = Returns (Some img)" and "fst (analyze_screenshot_quality img)"
  using assms by (auto simp: both_detected_def split: py.splits option.splits)

lemma cycle_hit:
  assumes "both_detected g (config st) c"
  shows "consecutive_detections (fst (monitor_cycle g c st)) = consecutive_detections st + 1"
    and "effects (fst (monitor_cycle g c st)) =
           effects st
           @ (if MIN_CONSECUTIVE_DETECTIONS \<le> consecutive_detections st + 1
              then [Alert, Sleep 2] else [])
           @ [if check_interval (config st) < 0 then Sleep 1
              else Sleep (check_interval (config st))]"
    and "monitoring (fst (monitor_cycle g c st)) = monitoring st"
    and "snd (monitor_cycle g c st) = Next"
    and "error_count (fst (monitor_cycle g c st)) = (if check_interval (config st) < 0 then 1 else 0)"
proof -
  obtain img where c: "c = Returns (Some img)"
    using assms by (rule hit_is_frame)
  note h = assms [unfolded c]
  show "consecutive_detections (fst (monitor_cycle g c st)) = consecutive_detections st + 1"
    using h by (simp add: c cycle_unfold)
  show "effects (fst (monitor_cycle g c st)) =
           effects st
           @ (if MIN_CONSECUTIVE_DETECTIONS \<le> consecutive_detections st + 1
              then [Alert, Sleep 2] else [])
           @ [if check_interval (config st) < 0 then Sleep 1
              else Sleep (check_interval (config st))]"
    using h by (simp add: c cycle_unfold)
  show "monitoring (fst (monitor_cycle g c st)) = monitoring st"
    using h by (simp add: c cycle_unfold)
  show "snd (monitor_cycle g c st) = Next"
    using h by (simp add: c cycle_unfold)
  show "error_count (fst (monitor_cycle g c st)) = (if check_interval (config st) < 0 then 1 else 0)"
    using h by (simp add: c cycle_unfold)
qed

lemma cycle_hit_alerts:
  assumes "both_detected g (config st) c"
  shows "alerts (fst (monitor_cycle g c st)) =
           alerts st + (if MIN_CONSECUTIVE_DETECTIONS \<le> consecutive_detections st + 1 then 1 else 0)"
  by (simp add: alerts_def cycle_hit(2) [OF assms])

lemma cycle_quiet:
  assumes "\<not> both_detected g (config st) c"
  shows "consecutive_detections (fst (monitor_cycle g c st)) \<le> consecutive_detections st
         \<and> alerts (fst (monitor_cycle g c st)) = alerts st"
proof (cases rule: cycle_cases [where c = c and g = g and cfg = "config st"])
  case (miss img)
  then obtain hint where "monitor_try g c st =
     time_sleep (check_interval (config st))
       (st\<lparr>error_count := 0, consecutive_detections := 0,
           status_var := Monitoring (detect_white_pixels g img (white_threshold (config st)))
                 (detect_blue_pixels img) hint\<rparr>)"
    using try_miss_obtain [of img g st] by auto
  then show ?thesis
    by (simp add: cycle_unfold alerts_def)
next
  case (hit img)
  then show ?thesis using assms by simp
qed (simp_all add: cycle_unfold alerts_def)

lemma cycle_frame:
  assumes "frame_arrives c"
  shows "monitoring (fst (monitor_cycle g c st)) = monitoring st
         \<and> (snd (monitor_cycle g c st) = Next \<or> snd (monitor_cycle g c st) = Continue)"
proof (cases rule: cycle_cases [where c = c and g = g and cfg = "config st"])
  case (miss img)
  then obtain hint where "monitor_try g c st =
     time_sleep (check_interval (config st))
       (st\<lparr>error_count := 0, consecutive_detections := 0,
           status_var := Monitoring (detect_white_pixels g img (white_threshold (config st)))
                 (detect_blue_pixels img) hint\<rparr>)"
    using try_miss_obtain [of img g st] by auto
  then show ?thesis
    by (simp add: cycle_unfold)
next
  case (hit img)
  then show ?thesis
    using cycle_hit(3,4) [of g st c] by simp
next
  case raises
  then show ?thesis using assms by (simp add: frame_arrives_def)
next
  case none
  then show ?thesis using assms by (simp add: frame_arrives_def)
next
  case (invalid img)
  then show ?thesis by (simp add: cycle_unfold)
qed

lemma cycle_failed:
  assumes "capture_failed c"
  shows "alerts (fst (monitor_cycle g c st)) = alerts st"
    and "(snd (monitor_cycle g c st) \<in> {Return, Raise}
          \<and> \<not> monitoring (fst (monitor_cycle g c st))
          \<and> status_var (fst (monitor_cycle g c st)) \<in> {TooManyErrors, MonitoringStopped})
        \<or> (snd (monitor_cycle g c st) \<in> {Next, Continue}
          \<and> monitoring (fst (monitor_cycle g c st)) = monitoring st
          \<and> error_count st < error_count (fst (monitor_cycle g c st))
          \<and> error_count (fst (monitor_cycle g c st)) < max_errors)"
proof -
  from assms consider "c = Raises" | "c = Returns None"
    by (auto simp: capture_failed_def)
  then show "alerts (fst (monitor_cycle g c st)) = alerts st"
    by cases (simp_all add: cycle_unfold alerts_def)
  from assms consider "c = Raises" | "c = Returns None"
    by (auto simp: capture_failed_def)
  then show "(snd (monitor_cycle g c st) \<in> {Return, Raise}
          \<and> \<not> monitoring (fst (monitor_cycle g c st))
          \<and> status_var (fst (monitor_cycle g c st)) \<in> {TooManyErrors, MonitoringStopped})
        \<or> (snd (monitor_cycle g c st) \<in> {Next, Continue}
          \<and> monitoring (fst (monitor_cycle g c st)) = monitoring st
          \<and> error_count st < error_count (fst (monitor_cycle g c st))
          \<and> error_count (fst (monitor_cycle g c st)) < max_errors)"
    by cases (simp_all add: cycle_unfold)
qed

lemma cycle_invalid:
  assumes "\<not> fst (analyze_screenshot_quality img)"
  shows "consecutive_detections (fst (monitor_cycle g (Returns (Some img)) st)) = consecutive_detections st"
    and "effects (fst (monitor_cycle g (Returns (Some img)) st)) =
           effects st @ [if check_interval (config st) < 0 then Sleep 1
                         else Sleep (check_interval (config st))]"
    and "monitoring (fst (monitor_cycle g (Returns (Some img)) st)) = monitoring st"
    and "snd (monitor_cycle g (Returns (Some img)) st) =
           (if check_interval (config st) < 0 then Next else Continue)"
    and "error_count (fst (monitor_cycle g (Returns (Some img)) st)) =
           (if check_interval (config st) < 0 then 1 else 0)"
    and "status_var (fst (monitor_cycle g (Returns (Some img)) st)) =
           (if check_interval (config st) < 0 then MonitoringError 1
            else WarningBlack (snd (analyze_screenshot_quality img)))"
  using assms by (simp_all add: cycle_unfold)

lemma loop_step:
  assumes "monitoring st"
    and "snd (monitor_cycle g c st) = Next \<or> snd (monitor_cycle g c st) = Continue"
  shows "monitor_loop g (c # cs) st = monitor_loop g cs (fst (monitor_cycle g c st))"
  using assms by (cases "monitor_cycle g c st") auto

lemma loop_stop:
  assumes "snd (monitor_cycle g c st) = Return \<or> snd (monitor_cycle g c st) = Raise"
    and "monitoring st"
  shows "monitor_loop g (c # cs) st = monitor_cycle g c st"
  using assms by (cases "monitor_cycle g c st") auto

lemma loop_idle: "\<not> monitoring st \<Longrightarrow> monitor_loop g cs st = (st, Return)"
  by (cases cs) simp_all

lemma loop_append:
  "monitor_loop g (xs @ ys) st =
     (if snd (monitor_loop g xs st) = Next then monitor_loop g ys (fst (monitor_loop g xs st))
      else monitor_loop g xs st)"
proof (induction xs arbitrary: st)
  case Nil
  then show ?case by (simp add: loop_idle)
next
  case (Cons c xs)
  show ?case
  proof (cases "monitoring st")
    case False
    then show ?thesis by (simp add: loop_idle)
  next
    case True
    show ?thesis
    proof (cases "snd (monitor_cycle g c st) = Next \<or> snd (monitor_cycle g c st) = Continue")
      case True
      have 1: "monitor_loop g (c # (xs @ ys)) st
                 = monitor_loop g (xs @ ys) (fst (monitor_cycle g c st))"
        by (rule loop_step [OF \<open>monitoring st\<close> True])
      have 2: "monitor_loop g (c # xs) st = monitor_loop g xs (fst (monitor_cycle g c st))"
        by (rule loop_step [OF \<open>monitoring st\<close> True])
      show ?thesis
        unfolding append_Cons 1 2 by (rule Cons.IH)
    next
      case False
      then have stop: "snd (monitor_cycle g c st) = Return \<or> snd (monitor_cycle g c st) = Raise"
        by (cases "snd (monitor_cycle g c st)") auto
      have 1: "monitor_loop g (c # (xs @ ys)) st = monitor_cycle g c st"
        by (rule loop_stop [OF stop \<open>monitoring st\<close>])
      have 2: "monitor_loop g (c # xs) st = monitor_cycle g c st"
        by (rule loop_stop [OF stop \<open>monitoring st\<close>])
      show ?thesis
        unfolding append_Cons 1 2 using stop by auto
    qed
  qed
qed

lemma loop_next_monitoring:
  "snd (monitor_loop g cs st) = Next \<Longrightarrow> monitoring (fst (monitor_loop g cs st))"
proof (induction cs arbitrary: st)
  case Nil
  then show ?case by (simp split: if_splits)
next
  case (Cons c cs)
  then show ?case
    by (cases "monitor_cycle g c st"; cases "snd (monitor_cycle g c st)")
      (auto split: if_splits)
qed

lemma loop_config: "config (fst (monitor_loop g cs st)) = config st"
proof (induction cs arbitrary: st)
  case Nil
  then show ?case by simp
next
  case (Cons c cs)
  have "config (fst (monitor_cycle g c st)) = config st"
    by (rule cycle_config)
  with Cons show ?case
    by (cases "monitor_cycle g c st"; cases "snd (monitor_cycle g c st)") auto
qed

lemma loop_quiet:
  assumes "\<forall>c\<in>set cs. \<not> both_detected g (config st) c"
  shows "consecutive_detections (fst (monitor_loop g cs st)) \<le> consecutive_detections st
         \<and> alerts (fst (monitor_loop g cs st)) = alerts st"
  using assms
proof (induction cs arbitrary: st)
  case Nil
  then show ?case by simp
next
  case (Cons c cs)
  let ?s = "fst (monitor_cycle g c st)"
  have q: "consecutive_detections ?s \<le> consecutive_detections st \<and> alerts ?s = alerts st"
    using Cons.prems by (intro cycle_quiet) simp
  have "\<forall>c\<in>set cs. \<not> both_detected g (config ?s) c"
    using Cons.prems by (simp add: cycle_config)
  from Cons.IH [OF this] q
  show ?case
    by (cases "monitor_cycle g c st"; cases "snd (monitor_cycle g c st)") auto
qed

lemma loop_frames:
  assumes "\<forall>c\<in>set cs. frame_arrives c" and "monitoring st"
  shows "snd (monitor_loop g cs st) = Next"
  using assms
proof (induction cs arbitrary: st)
  case Nil
  then show ?case by simp
next
  case (Cons c cs)
  have f: "monitoring (fst (monitor_cycle g c st)) = monitoring st
         \<and> (snd (monitor_cycle g c st) = Next \<or> snd (monitor_cycle g c st) = Continue)"
    using Cons.prems by (intro cycle_frame) simp
  then have "monitor_loop g (c # cs) st = monitor_loop g cs (fst (monitor_cycle g c st))"
    using Cons.prems by (intro loop_step) auto
  moreover have "snd (monitor_loop g cs (fst (monitor_cycle g c st))) = Next"
    using Cons.prems f by (intro Cons.IH) auto
  ultimately show ?case by simp
qed

lemma loop_failures:
  assumes "\<forall>c\<in>set cs. capture_failed c"
    and "monitoring st" and "cs \<noteq> []"
    and "max_errors \<le> error_count st + length cs"
  shows "snd (monitor_loop g cs st) \<in> {Return, Raise}
         \<and> \<not> monitoring (fst (monitor_loop g cs st))
         \<and> status_var (fst (monitor_loop g cs st)) \<in> {TooManyErrors, MonitoringStopped}
         \<and> alerts (fst (monitor_loop g cs st)) = alerts st"
  using assms
proof (induction cs arbitrary: st)
  case Nil
  then show ?case by simp
next
  case (Cons c cs)
  let ?r = "monitor_cycle g c st"
  have f: "capture_failed c"
    using Cons.prems by simp
  have a: "alerts (fst ?r) = alerts st"
    using f by (rule cycle_failed(1))
  have "(snd ?r \<in> {Return, Raise} \<and> \<not> monitoring (fst ?r)
          \<and> status_var (fst ?r) \<in> {TooManyErrors, MonitoringStopped})
        \<or> (snd ?r \<in> {Next, Continue} \<and> monitoring (fst ?r) = monitoring st
          \<and> error_count st < error_count (fst ?r) \<and> error_count (fst ?r) < max_errors)"
    using f by (rule cycle_failed(2))
  then show ?case
  proof
    assume stop: "snd ?r \<in> {Return, Raise} \<and> \<not> monitoring (fst ?r)
          \<and> status_var (fst ?r) \<in> {TooManyErrors, MonitoringStopped}"
    then have "monitor_loop g (c # cs) st = ?r"
      using Cons.prems by (intro loop_stop) auto
    with stop a show ?thesis by simp
  next
    assume go: "snd ?r \<in> {Next, Continue} \<and> monitoring (fst ?r) = monitoring st
          \<and> error_count st < error_count (fst ?r) \<and> error_count (fst ?r) < max_errors"
    then have step: "monitor_loop g (c # cs) st = monitor_loop g cs (fst ?r)"
      using Cons.prems by (intro loop_step) auto
    have ne: "cs \<noteq> []"
      using Cons.prems(4) go by auto
    have le: "max_errors \<le> error_count (fst ?r) + length cs"
      using Cons.prems(4) go by auto
    have "snd (monitor_loop g cs (fst ?r)) \<in> {Return, Raise}
         \<and> \<not> monitoring (fst (monitor_loop g cs (fst ?r)))
         \<and> status_var (fst (monitor_loop g cs (fst ?r))) \<in> {TooManyErrors, MonitoringStopped}
         \<and> alerts (fst (monitor_loop g cs (fst ?r))) = alerts (fst ?r)"
      using Cons.prems(1,2) go ne le by (intro Cons.IH) auto
    with step a show ?thesis by simp
  qed
qed


lemma frame_raise:
  assumes "check_interval (config st) < 0"
  shows "error_count (fst (monitor_cycle g (Returns (Some img)) st)) = 1
         \<and> snd (monitor_cycle g (Returns (Some img)) st) = Next"
proof (cases rule: cycle_cases [where c = "Returns (Some img)" and g = g and cfg = "config st"])
  case (invalid img')
  then show ?thesis
    using assms cycle_invalid(4,5) [of img g st] by simp
next
  case (hit img')
  then show ?thesis
    using assms cycle_hit(4,5) [of g st "Returns (Some img)"] by simp
next
  case (miss img')
  then obtain hint where "monitor_try g (Returns (Some img)) st =
     time_sleep (check_interval (config st))
       (st\<lparr>error_count := 0, consecutive_detections := 0,
           status_var := Monitoring (detect_white_pixels g img (white_threshold (config st)))
                 (detect_blue_pixels img) hint\<rparr>)"
    using try_miss_obtain [of img g st] by auto
  then show ?thesis
    using assms by (simp add: cycle_unfold)
qed simp_all

section \<open>Runs of the loop\<close>


lemmas frame_eval = analyze_screenshot_quality_def detect_white_pixels_def
  detect_blue_pixels_def np_array_def count_nonzero_def inRange_def BLUE_LOWER_def
  BLUE_UPPER_def BLACK_PIXEL_WARNING_THRESHOLD_def luma_gray_def uniform_def Let_def upt_rec

lemma hit_frame_quality: "analyze_screenshot_quality hit_frame = (True, Fin 0)"
  by (simp add: frame_eval hit_frame_def)

lemma hit_frame_white: "detect_white_pixels luma_gray hit_frame 200 = 25"
  by (simp add: frame_eval hit_frame_def)

lemma hit_frame_blue: "detect_blue_pixels hit_frame = 75"
  by (simp add: frame_eval hit_frame_def)

lemma dark_frame_quality: "analyze_screenshot_quality dark_frame = (False, Fin 100)"
  by (simp add: frame_eval dark_frame_def)


lemma gray_frame_blue: "detect_blue_pixels gray_frame = 0"
  by (simp add: frame_eval gray_frame_def)

lemma hit_frame_detected:
  "white_threshold cfg = 200 \<Longrightarrow> blue_threshold cfg \<le> 75
   \<Longrightarrow> both_detected luma_gray cfg (Returns (Some hit_frame))"
  by (simp add: both_detected_def hit_frame_quality hit_frame_white hit_frame_blue)

lemma dark_frame_quiet: "\<not> both_detected g cfg (Returns (Some dark_frame))"
  by (simp add: both_detected_def dark_frame_quality)

lemma gray_frame_quiet: "0 < blue_threshold cfg \<Longrightarrow> \<not> both_detected g cfg (Returns (Some gray_frame))"
  by (simp add: both_detected_def gray_frame_blue)

lemma failed_quiet: "capture_failed c \<Longrightarrow> \<not> both_detected g cfg c"
  by (auto simp: capture_failed_def both_detected_def)

lemma loop_one_hit:
  assumes quiet: "\<forall>c\<in>set pre \<union> set post. \<not> both_detected g (config st) c"
    and hit: "both_detected g (config st) d"
    and zero: "consecutive_detections st = 0"
  shows "alerts (fst (monitor_loop g (pre @ d # post) st)) = alerts st"
proof -
  let ?s1 = "fst (monitor_loop g pre st)"
  have s1: "consecutive_detections ?s1 \<le> consecutive_detections st \<and> alerts ?s1 = alerts st"
    using quiet by (intro loop_quiet) simp
  have c1: "config ?s1 = config st"
    by (rule loop_config)
  show ?thesis
  proof (cases "snd (monitor_loop g pre st) = Next")
    case False
    then show ?thesis
      using s1 by (simp add: loop_append)
  next
    case True
    then have m1: "monitoring ?s1"
      by (rule loop_next_monitoring)
    let ?s2 = "fst (monitor_cycle g d ?s1)"
    have h1: "both_detected g (config ?s1) d"
      using hit c1 by simp
    have "monitor_loop g (d # post) ?s1 = monitor_loop g post ?s2"
      using m1 cycle_hit(4) [OF h1] by (intro loop_step) auto
    moreover have "alerts ?s2 = alerts ?s1"
      using cycle_hit_alerts [OF h1] s1 zero by (simp add: MIN_CONSECUTIVE_DETECTIONS_def)
    moreover have "alerts (fst (monitor_loop g post ?s2)) = alerts ?s2"
      using quiet c1 by (intro loop_quiet [THEN conjunct2]) (simp add: cycle_config)
    ultimately show ?thesis
      using True s1 by (simp add: loop_append)
  qed
qed

lemma loop_two_hits:
  assumes quiet: "\<forall>c\<in>set pre \<union> set post. \<not> both_detected g (config st) c"
    and frames: "\<forall>c\<in>set pre. frame_arrives c"
    and running: "monitoring st"
    and hit1: "both_detected g (config st) d1"
    and hit2: "both_detected g (config st) d2"
    and zero: "consecutive_detections st = 0"
  shows "alerts (fst (monitor_loop g (pre @ [d1]) st)) = alerts st"
    and "alerts (fst (monitor_loop g (pre @ [d1, d2]) st)) = alerts st + 1"
    and "alerts (fst (monitor_loop g (pre @ [d1, d2] @ post) st)) = alerts st + 1"
proof -
  let ?s1 = "fst (monitor_loop g pre st)"
  let ?s2 = "fst (monitor_cycle g d1 ?s1)"
  let ?s3 = "fst (monitor_cycle g d2 ?s2)"
  have s1: "consecutive_detections ?s1 \<le> consecutive_detections st \<and> alerts ?s1 = alerts st"
    using quiet by (intro loop_quiet) simp
  have c1: "config ?s1 = config st"
    by (rule loop_config)
  have n1: "snd (monitor_loop g pre st) = Next"
    using frames running by (rule loop_frames)
  then have m1: "monitoring ?s1"
    by (rule loop_next_monitoring)
  have h1: "both_detected g (config ?s1) d1"
    using hit1 c1 by simp
  have h2: "both_detected g (config ?s2) d2"
    using hit2 c1 by (simp add: cycle_config)
  have m2: "monitoring ?s2"
    using cycle_hit(3) [OF h1] m1 by simp
  have step1: "monitor_loop g (d1 # cs) ?s1 = monitor_loop g cs ?s2" for cs
    using m1 cycle_hit(4) [OF h1] by (intro loop_step) auto
  have step2: "monitor_loop g (d2 # cs) ?s2 = monitor_loop g cs ?s3" for cs
    using m2 cycle_hit(4) [OF h2] by (intro loop_step) auto
  have k2: "consecutive_detections ?s2 = 1"
    using cycle_hit(1) [OF h1] s1 zero by simp
  have a2: "alerts ?s2 = alerts st"
    using cycle_hit_alerts [OF h1] s1 zero by (simp add: MIN_CONSECUTIVE_DETECTIONS_def)
  have a3: "alerts ?s3 = alerts st + 1"
    using cycle_hit_alerts [OF h2] k2 a2 by (simp add: MIN_CONSECUTIVE_DETECTIONS_def)
  have a4: "alerts (fst (monitor_loop g post ?s3)) = alerts ?s3"
    using quiet c1 by (intro loop_quiet [THEN conjunct2]) (simp add: cycle_config)
  show "alerts (fst (monitor_loop g (pre @ [d1]) st)) = alerts st"
    using n1 step1 [of "[]"] a2 by (simp add: loop_append)
  show "alerts (fst (monitor_loop g (pre @ [d1, d2]) st)) = alerts st + 1"
    using n1 step1 [of "[d2]"] step2 [of "[]"] a3 by (simp add: loop_append)
  show "alerts (fst (monitor_loop g (pre @ [d1, d2] @ post) st)) = alerts st + 1"
    using n1 step1 [of "d2 # post"] step2 [of post] a3 a4 by (simp add: loop_append)
qed

lemma reset_fields:
  "config (st\<lparr>consecutive_detections := 0, error_count := 0\<rparr>) = config st"
  "alerts (st\<lparr>consecutive_detections := 0, error_count := 0\<rparr>) = alerts st"
  "monitoring (st\<lparr>consecutive_detections := 0, error_count := 0\<rparr>) = monitoring st"
  "consecutive_detections (st\<lparr>consecutive_detections := 0, error_count := 0\<rparr>) = 0"
  by (simp_all add: alerts_def)

text \<open>
  C2. A session starts with the count at 0. When both conditions hold in one cycle only,
  with cycles before and after it in which they do not, the alert is never sounded.
  When they hold in two cycles in a row (after cycles in which a frame arrived without
  both conditions), the alert is not sounded by the end of the first of the two, has
  been sounded exactly once by the end of the second, and is not sounded again in the
  cycles after, in which the conditions no longer hold.
\<close>

theorem debounce:
  assumes "\<forall>c\<in>set pre \<union> set post. \<not> both_detected g (config st) c"
    and "both_detected g (config st) d1" and "both_detected g (config st) d2"
  shows "alerts (fst (monitor_screen g (pre @ [d1] @ post) st)) = alerts st
         \<and> ((\<forall>c\<in>set pre. frame_arrives c) \<and> monitoring st \<longrightarrow>
              alerts (fst (monitor_screen g (pre @ [d1]) st)) = alerts st
            \<and> alerts (fst (monitor_screen g (pre @ [d1, d2]) st)) = alerts st + 1
            \<and> alerts (fst (monitor_screen g (pre @ [d1, d2] @ post) st)) = alerts st + 1)"
proof -
  let ?s0 = "st\<lparr>consecutive_detections := 0, error_count := 0\<rparr>"
  have q: "\<forall>c\<in>set pre \<union> set post. \<not> both_detected g (config ?s0) c"
    and h1: "both_detected g (config ?s0) d1" and h2: "both_detected g (config ?s0) d2"
    using assms by simp_all
  have z: "consecutive_detections ?s0 = 0"
    by simp
  have one: "alerts (fst (monitor_loop g (pre @ d1 # post) ?s0)) = alerts ?s0"
    by (rule loop_one_hit [OF q h1 z])
  have two: "alerts (fst (monitor_loop g (pre @ [d1]) ?s0)) = alerts ?s0
      \<and> alerts (fst (monitor_loop g (pre @ [d1, d2]) ?s0)) = alerts ?s0 + 1
      \<and> alerts (fst (monitor_loop g (pre @ [d1, d2] @ post) ?s0)) = alerts ?s0 + 1"
    if "\<forall>c\<in>set pre. frame_arrives c" and "monitoring st"
  proof -
    have m: "monitoring ?s0"
      using that by simp
    show ?thesis
      using loop_two_hits [OF q that(1) m h1 h2 z] by blast
  qed
  show ?thesis
    using one two unfolding monitor_screen_def reset_fields(2) by simp
qed

lemma running_fields:
  "config (running_app cfg) = cfg"
  "monitoring (running_app cfg)"
  "monitor_thread (running_app cfg)"
  "consecutive_detections (running_app cfg) = 0"
  "error_count (running_app cfg) = 0"
  "effects (running_app cfg) = []"
  "alerts (running_app cfg) = 0"
  by (simp_all add: running_app_def new_app_def alerts_def)

lemma default_fields:
  "white_threshold default_config = 200"
  "blue_threshold default_config = 60"
  "check_interval default_config = 1 / 2"
  by (simp_all add: default_config_def)

theorem debounce_witness:
  "alerts (fst (monitor_screen luma_gray
      ([Returns (Some gray_frame)] @ [Returns (Some hit_frame)]
        @ [Returns (Some dark_frame), Returns None])
      (running_app default_config))) = 0
   \<and> alerts (fst (monitor_screen luma_gray
      ([Returns (Some gray_frame)] @ [Returns (Some hit_frame), Returns (Some hit_frame)])
      (running_app default_config))) = 1
   \<and> alerts (fst (monitor_screen luma_gray
      ([Returns (Some gray_frame)] @ [Returns (Some hit_frame), Returns (Some hit_frame)]
        @ [Returns (Some dark_frame), Returns None])
      (running_app default_config))) = 1"
  using debounce [of "[Returns (Some gray_frame)]" "[Returns (Some dark_frame), Returns None]"
      luma_gray "running_app default_config" "Returns (Some hit_frame)" "Returns (Some hit_frame)"]
  by (simp add: running_fields default_fields hit_frame_detected dark_frame_quiet
      gray_frame_quiet failed_quiet capture_failed_def frame_arrives_def)



lemma try_frame_flow:
  "snd (monitor_try g (Returns (Some img)) st) =
     (if check_interval (config st) < 0 then Raise
      else if fst (analyze_screenshot_quality img) then Next else Continue)"
proof (cases rule: cycle_cases [where c = "Returns (Some img)" and g = g and cfg = "config st"])
  case (invalid img')
  then show ?thesis by (simp add: try_invalid prim_defs)
next
  case (hit img')
  then have "fst (analyze_screenshot_quality img)"
    by (simp add: both_detected_def)
  then show ?thesis
    using hit by (simp add: try_hit prim_defs)
next
  case (miss img')
  then obtain hint where "monitor_try g (Returns (Some img)) st =
     time_sleep (check_interval (config st))
       (st\<lparr>error_count := 0, consecutive_detections := 0,
           status_var := Monitoring (detect_white_pixels g img (white_threshold (config st)))
                 (detect_blue_pixels img) hint\<rparr>)"
    using try_miss_obtain [of img g st] by auto
  then show ?thesis
    using miss by (simp add: prim_defs)
qed simp_all




lemma cycle_none:
  assumes "error_count st + 1 < max_errors" and "0 \<le> check_interval (config st)"
  shows "consecutive_detections (fst (monitor_cycle g (Returns None) st)) = consecutive_detections st"
    and "effects (fst (monitor_cycle g (Returns None) st)) =
           effects st @ [Sleep (check_interval (config st))]"
    and "monitoring (fst (monitor_cycle g (Returns None) st)) = monitoring st"
    and "snd (monitor_cycle g (Returns None) st) = Continue"
    and "error_count (fst (monitor_cycle g (Returns None) st)) = error_count st + 1"
  using assms by (simp_all add: cycle_unfold)

lemma hit_step:
  assumes "both_detected g (config st) c" and "monitoring st"
  shows "monitor_loop g (c # cs) st = monitor_loop g cs (fst (monitor_cycle g c st))"
  using assms cycle_hit(4) [OF assms(1)] by (intro loop_step) auto

lemma invalid_step:
  assumes "\<not> fst (analyze_screenshot_quality img)" and "monitoring st"
  shows "monitor_loop g (Returns (Some img) # cs) st
           = monitor_loop g cs (fst (monitor_cycle g (Returns (Some img)) st))"
  using assms cycle_invalid(4) [OF assms(1), of g st] by (intro loop_step) auto

lemma none_step:
  assumes "error_count st + 1 < max_errors" and "0 \<le> check_interval (config st)"
    and "monitoring st"
  shows "monitor_loop g (Returns None # cs) st
           = monitor_loop g cs (fst (monitor_cycle g (Returns None) st))"
  using assms cycle_none(4) [OF assms(1,2), of g] by (intro loop_step) auto

text \<open>
  C4, as the code has it. In a running loop, five cycles in a row (or more) whose
  capture fails, by raising or by returning the sentinel, end the loop: it has returned
  or an exception has left it, the flag is cleared, the status is a final one, and the
  alert was not sounded in any of these cycles. A cycle whose capture delivers a frame
  and whose body raises after that ends with an error count of exactly 1 and the loop
  going on; and no run of cycles whose capture delivers a frame, however long, ends the
  loop.
\<close>

theorem error_budget:
  "((\<forall>c\<in>set cs. capture_failed c) \<and> monitoring st \<and> max_errors \<le> length cs \<longrightarrow>
      snd (monitor_loop g cs st) \<in> {Return, Raise}
      \<and> \<not> monitoring (fst (monitor_loop g cs st))
      \<and> status_var (fst (monitor_loop g cs st)) \<in> {TooManyErrors, MonitoringStopped}
      \<and> alerts (fst (monitor_loop g cs st)) = alerts st)
   \<and> (snd (monitor_try g (Returns (Some img)) st) = Raise \<longrightarrow>
      error_count (fst (monitor_cycle g (Returns (Some img)) st)) = 1
      \<and> snd (monitor_cycle g (Returns (Some img)) st) = Next
      \<and> monitoring (fst (monitor_cycle g (Returns (Some img)) st)) = monitoring st)
   \<and> ((\<forall>c\<in>set fs. frame_arrives c) \<and> monitoring st \<longrightarrow>
      snd (monitor_loop g fs st) = Next \<and> monitoring (fst (monitor_loop g fs st)))"
proof (intro conjI impI)
  assume h: "(\<forall>c\<in>set cs. capture_failed c) \<and> monitoring st \<and> max_errors \<le> length cs"
  then have "cs \<noteq> []"
    by (auto simp: max_errors_def)
  with h have "snd (monitor_loop g cs st) \<in> {Return, Raise}
      \<and> \<not> monitoring (fst (monitor_loop g cs st))
      \<and> status_var (fst (monitor_loop g cs st)) \<in> {TooManyErrors, MonitoringStopped}
      \<and> alerts (fst (monitor_loop g cs st)) = alerts st"
    by (intro loop_failures) auto
  then show "snd (monitor_loop g cs st) \<in> {Return, Raise}"
    and "\<not> monitoring (fst (monitor_loop g cs st))"
    and "status_var (fst (monitor_loop g cs st)) \<in> {TooManyErrors, MonitoringStopped}"
    and "alerts (fst (monitor_loop g cs st)) = alerts st"
    by simp_all
next
  assume "snd (monitor_try g (Returns (Some img)) st) = Raise"
  then have n: "check_interval (config st) < 0"
    by (simp add: try_frame_flow split: if_splits)
  show "error_count (fst (monitor_cycle g (Returns (Some img)) st)) = 1"
    and "snd (monitor_cycle g (Returns (Some img)) st) = Next"
    using frame_raise [OF n, of g img] by simp_all
  show "monitoring (fst (monitor_cycle g (Returns (Some img)) st)) = monitoring st"
    using cycle_frame [of "Returns (Some img)" g st] by (simp add: frame_arrives_def)
next
  assume h: "(\<forall>c\<in>set fs. frame_arrives c) \<and> monitoring st"
  then show n: "snd (monitor_loop g fs st) = Next"
    by (intro loop_frames) auto
  then show "monitoring (fst (monitor_loop g fs st))"
    by (rule loop_next_monitoring)
qed

theorem error_budget_witness:
  "\<not> monitoring (fst (monitor_loop luma_gray
          [Returns None, Raises, Returns None, Raises, Raises]
          (running_app (default_config\<lparr>check_interval := - 1\<rparr>))))
   \<and> alerts (fst (monitor_loop luma_gray
          [Returns None, Raises, Returns None, Raises, Raises]
          (running_app (default_config\<lparr>check_interval := - 1\<rparr>)))) = 0
   \<and> error_count (fst (monitor_cycle luma_gray (Returns (Some hit_frame))
          (running_app (default_config\<lparr>check_interval := - 1\<rparr>)))) = 1
   \<and> snd (monitor_loop luma_gray [Returns (Some hit_frame), Returns (Some gray_frame)]
          (running_app (default_config\<lparr>check_interval := - 1\<rparr>))) = Next"
  using error_budget [of "[Returns None, Raises, Returns None, Raises, Raises]"
      "running_app (default_config\<lparr>check_interval := - 1\<rparr>)" luma_gray hit_frame
      "[Returns (Some hit_frame), Returns (Some gray_frame)]"]
  by (simp add: capture_failed_def frame_arrives_def running_fields max_errors_def
      try_frame_flow)

text \<open>
  C4, as the specification words it, fails. With a check interval of -1 every cycle
  raises in its last sleep, after the capture has succeeded and the error count has been
  set back to 0. After five such cycles in a row the loop is still running with an error
  count of 1; each cycle ended in the one-second pause of the handler, and the alert was
  sounded in four of them.
\<close>

theorem error_budget_counterexample:
  "snd (monitor_screen luma_gray
          [Returns (Some hit_frame), Returns (Some hit_frame), Returns (Some hit_frame),
           Returns (Some hit_frame), Returns (Some hit_frame)]
          (running_app (default_config\<lparr>check_interval := - 1\<rparr>))) = Next
   \<and> monitoring (fst (monitor_screen luma_gray
          [Returns (Some hit_frame), Returns (Some hit_frame), Returns (Some hit_frame),
           Returns (Some hit_frame), Returns (Some hit_frame)]
          (running_app (default_config\<lparr>check_interval := - 1\<rparr>))))
   \<and> error_count (fst (monitor_screen luma_gray
          [Returns (Some hit_frame), Returns (Some hit_frame), Returns (Some hit_frame),
           Returns (Some hit_frame), Returns (Some hit_frame)]
          (running_app (default_config\<lparr>check_interval := - 1\<rparr>)))) = 1
   \<and> effects (fst (monitor_screen luma_gray
          [Returns (Some hit_frame), Returns (Some hit_frame), Returns (Some hit_frame),
           Returns (Some hit_frame), Returns (Some hit_frame)]
          (running_app (default_config\<lparr>check_interval := - 1\<rparr>))))
     = [Sleep 1, Alert, Sleep 2, Sleep 1, Alert, Sleep 2, Sleep 1, Alert, Sleep 2, Sleep 1,
        Alert, Sleep 2, Sleep 1]"
proof -
  let ?cfg = "default_config\<lparr>check_interval := - 1\<rparr>"
  have h: "both_detected luma_gray ?cfg (Returns (Some hit_frame))"
    by (simp add: hit_frame_detected default_fields)
  have c: "check_interval ?cfg = - 1"
    by simp
  show ?thesis
    unfolding monitor_screen_def
    by (simp add: hit_step cycle_hit cycle_config h c running_fields reset_fields
        MIN_CONSECUTIVE_DETECTIONS_def del: monitor_loop.simps(2))
qed

text \<open>
  C5, where the code departs from it. A detection, then a frame that fails the quality
  check (or a capture that returns the sentinel), leaves the count at 1, and a second
  detection after it sounds the alert although the two detections were not consecutive.
\<close>

theorem detections_not_reset:
  "consecutive_detections (fst (monitor_screen luma_gray
      [Returns (Some hit_frame), Returns (Some dark_frame)] (running_app default_config))) = 1
   \<and> consecutive_detections (fst (monitor_screen luma_gray
      [Returns (Some hit_frame), Returns None] (running_app default_config))) = 1
   \<and> alerts (fst (monitor_screen luma_gray
      [Returns (Some hit_frame), Returns (Some dark_frame), Returns (Some hit_frame)]
      (running_app default_config))) = 1"
proof -
  have h: "both_detected luma_gray default_config (Returns (Some hit_frame))"
    by (simp add: hit_frame_detected default_fields)
  have d: "\<not> fst (analyze_screenshot_quality dark_frame)"
    by (simp add: dark_frame_quality)
  show ?thesis
    unfolding monitor_screen_def
    by (simp add: hit_step invalid_step none_step cycle_hit cycle_hit_alerts cycle_invalid
        cycle_none cycle_config h d running_fields reset_fields default_fields alerts_def
        MIN_CONSECUTIVE_DETECTIONS_def max_errors_def del: monitor_loop.simps(2))
qed

section \<open>Failed captures and the start of a session\<close>













text \<open>
  C6, where the code departs from it. A configuration with a white threshold of 300, on
  a screen of 1920 by 1080 whose test capture is a gray image: the input validation
  shows its message box, and \<^verbatim>\<open>start_monitoring\<close> goes on to set the flag and start
  the thread with that configuration.
\<close>

theorem start_ignores_input_validation:
  "\<not> valid_settings (default_config\<lparr>white_threshold := 300\<rparr>)
   \<and> monitoring (start_monitoring
        \<lparr>screen_size = (1920, 1080), probe = Grabbed (uniform 100 100 (128, 128, 128)),
         save_ok = True\<rparr>
        (new_app (default_config\<lparr>white_threshold := 300\<rparr>)))
   \<and> monitor_thread (start_monitoring
        \<lparr>screen_size = (1920, 1080), probe = Grabbed (uniform 100 100 (128, 128, 128)),
         save_ok = True\<rparr>
        (new_app (default_config\<lparr>white_threshold := 300\<rparr>)))
   \<and> white_threshold (config (start_monitoring
        \<lparr>screen_size = (1920, 1080), probe = Grabbed (uniform 100 100 (128, 128, 128)),
         save_ok = True\<rparr>
        (new_app (default_config\<lparr>white_threshold := 300\<rparr>)))) = 300
   \<and> dialogs (start_monitoring
        \<lparr>screen_size = (1920, 1080), probe = Grabbed (uniform 100 100 (128, 128, 128)),
         save_ok = True\<rparr>
        (new_app (default_config\<lparr>white_threshold := 300\<rparr>))) = [InvalidInput]"
proof -
  have "percentage_where near_black (uniform 100 100 (128, 128, 128)) = 0"
    by (intro percentage_none) (simp add: uniform_def near_black_def)
  then have q: "analyze_screenshot_quality (uniform 100 100 (128, 128, 128)) = (True, Fin 0)"
    by (simp add: quality_eq uniform_def)
  show ?thesis
    by (simp add: start_monitoring_def validate_configuration_def update_monitor_area_def
        validate_inputs_def take_screenshot_def q new_app_def default_config_def
        valid_settings_def set_status_def)
qed

end
